theory Spec2Isabelle
  imports Complex_Main "HOL-Library.Word"
begin

section \<open>Numbers\<close>

text \<open>
  JavaScript and GLSL numbers are modelled by real numbers: rounding error, overflow and
  signed zeros of the floating-point formats are outside the model. The places where
  JavaScript produces \<^verbatim>\<open>NaN\<close> or an infinity from finite operands (a division by
  zero, an arc cosine outside \<open>[-1, 1]\<close>, a remainder by zero) return \<open>None\<close>, and
  \<open>None\<close> propagates through the operations that follow, as \<^verbatim>\<open>NaN\<close> does.
\<close>

type_synonym vec2 = "real \<times> real"
type_synonym vec3 = "real \<times> real \<times> real"
type_synonym vec4 = "real \<times> real \<times> real \<times> real"

text \<open>A JavaScript 3-by-3 array of arrays: the triple of its rows.\<close>
type_synonym mat3 = "vec3 \<times> vec3 \<times> vec3"

definition js_div :: "real \<Rightarrow> real \<Rightarrow> real option" where
  "js_div a b = (if b = 0 then None else Some (a / b))"

definition js_acos :: "real \<Rightarrow> real option" where
  "js_acos t = (if - 1 \<le> t \<and> t \<le> 1 then Some (arccos t) else None)"

text \<open>\<^verbatim>\<open>Math.atan2(y, x)\<close>, with values in \<open>[-pi, pi]\<close>; at the origin it is 0.\<close>
definition js_atan2 :: "real \<Rightarrow> real \<Rightarrow> real" where
  "js_atan2 y x =
     (if 0 < x then arctan (y / x)
      else if x < 0 then (if 0 \<le> y then arctan (y / x) + pi else arctan (y / x) - pi)
      else if 0 < y then pi / 2
      else if y < 0 then - (pi / 2)
      else 0)"

text \<open>\<^verbatim>\<open>Math.round\<close>: to the nearest integer, a tie going up.\<close>
definition js_round :: "real \<Rightarrow> int" where
  "js_round v = \<lfloor>v + 1 / 2\<rfloor>"

text \<open>The remainder operator \<^verbatim>\<open>%\<close> on integral operands: the sign of the dividend,
  \<^verbatim>\<open>NaN\<close> for a zero divisor.\<close>
definition js_rem :: "int \<Rightarrow> int \<Rightarrow> int option" where
  "js_rem a b = (if b = 0 then None else Some (sgn a * (\<bar>a\<bar> mod \<bar>b\<bar>)))"

section \<open>The projection worker\<close>

record imageData =
  data :: "8 word list"
  width :: nat
  height :: nat

record params =
  w_proj :: nat
  h_proj :: nat
  scale :: real
  alpha :: real
  beta :: real
  gamma :: real
  offset_hor :: real
  offset_ver :: real

datatype message = Progress "real option" | Done "8 word list"

definition rot_mat :: "params \<Rightarrow> mat3" where
  "rot_mat p =
    ((cos (gamma p) * cos (beta p),
      cos (gamma p) * sin (beta p) * sin (alpha p) - sin (gamma p) * cos (alpha p),
      cos (gamma p) * sin (beta p) * cos (alpha p) + sin (gamma p) * sin (alpha p)),
     (sin (gamma p) * cos (beta p),
      sin (gamma p) * sin (beta p) * sin (alpha p) + cos (gamma p) * cos (alpha p),
      sin (gamma p) * sin (beta p) * cos (alpha p) - cos (gamma p) * sin (alpha p)),
     (- sin (beta p),
      cos (beta p) * sin (alpha p),
      cos (beta p) * cos (alpha p)))"

definition getPointOnSphere :: "vec3 \<Rightarrow> real \<Rightarrow> vec3 option" where
  "getPointOnSphere point r =
    (case point of (x, y, z) \<Rightarrow>
      (case js_div (2 * r\<^sup>2) (x\<^sup>2 + y\<^sup>2 + r\<^sup>2) of
         None \<Rightarrow> None
       | Some k \<Rightarrow> Some (k * x, k * y, (k - 1) * r)))"

definition axisRotate :: "vec3 \<Rightarrow> mat3 \<Rightarrow> vec3" where
  "axisRotate point m =
    (case point of (p0, p1, p2) \<Rightarrow>
      (case m of ((m00, m01, m02), (m10, m11, m12), (m20, m21, m22)) \<Rightarrow>
        (m00 * p0 + m01 * p1 + m02 * p2,
         m10 * p0 + m11 * p1 + m12 * p2,
         m20 * p0 + m21 * p1 + m22 * p2)))"

definition getPixOnImg :: "vec3 \<Rightarrow> real \<Rightarrow> nat \<Rightarrow> nat \<Rightarrow> int option \<times> int option" where
  "getPixOnImg point r h_img w_img =
    (case point of (x, y, z0) \<Rightarrow>
      (let z = (if z0 > r then r else z0);
           row = Option.bind (Option.bind (js_div z r) js_acos) (\<lambda>a. Some (a / pi));
           col = js_atan2 y x / (2 * pi) + 0.5
       in (Option.bind row (\<lambda>rw. js_rem (js_round (rw * real h_img)) (int h_img)),
           js_rem (js_round (col * real w_img)) (int w_img))))"

definition projection ::
  "nat \<times> nat \<Rightarrow> real \<Rightarrow> nat \<Rightarrow> nat \<Rightarrow> nat \<Rightarrow> nat \<Rightarrow> real \<Rightarrow> real \<Rightarrow> mat3
     \<Rightarrow> int option \<times> int option" where
  "projection pix_proj r h_img w_img hp wp off_hor off_ver m =
    (case pix_proj of (row, col) \<Rightarrow>
      (let x = real row + (off_ver - 0.5) * real hp;
           y = real col + (off_hor - 0.5) * real wp;
           z = 0;
           Q = (x, y, z)
       in (case getPointOnSphere Q r of
             None \<Rightarrow> (None, None)
           | Some P \<Rightarrow> getPixOnImg (axisRotate P m) r h_img w_img)))"

text \<open>Reading \<^verbatim>\<open>imageData.data[i]\<close>: the element when \<open>i\<close> is an index of the array,
  \<^verbatim>\<open>undefined\<close> (here \<open>None\<close>) otherwise, also when \<open>i\<close> is \<^verbatim>\<open>NaN\<close>.\<close>
definition typed_get :: "8 word list \<Rightarrow> int option \<Rightarrow> 8 word option" where
  "typed_get d i =
    (case i of
       None \<Rightarrow> None
     | Some j \<Rightarrow> (if 0 \<le> j \<and> nat j < length d then Some (d ! nat j) else None))"

text \<open>Storing into a \<^verbatim>\<open>Uint8ClampedArray\<close>: \<^verbatim>\<open>undefined\<close> is stored as 0; a store
  outside the array is ignored, as a list update outside the list is.\<close>
definition typed_set :: "8 word list \<Rightarrow> nat \<Rightarrow> 8 word option \<Rightarrow> 8 word list" where
  "typed_set res i v = res[i := (case v of None \<Rightarrow> 0 | Some b \<Rightarrow> b)]"

definition img_index :: "imageData \<Rightarrow> int option \<times> int option \<Rightarrow> int option" where
  "img_index img pix_img =
    (case pix_img of
       (Some a, Some b) \<Rightarrow> Some ((a * int (width img) + b) * 4)
     | _ \<Rightarrow> None)"

text \<open>The body of the inner loop of \<^verbatim>\<open>processChunk\<close>, for the output pixel \<open>(y, x)\<close>.\<close>
definition copy_pixel ::
  "imageData \<Rightarrow> params \<Rightarrow> real \<Rightarrow> mat3 \<Rightarrow> nat \<Rightarrow> nat \<Rightarrow> 8 word list \<Rightarrow> 8 word list" where
  "copy_pixel img p r m y x res =
    (let pix_proj = (y, x);
         pix_img = projection pix_proj r (height img) (width img) (h_proj p) (w_proj p)
                     (offset_hor p) (offset_ver p) m;
         index = (y * w_proj p + x) * 4;
         imgIndex = img_index img pix_img;
         res1 = typed_set res index (typed_get (data img) imgIndex);
         res2 = typed_set res1 (index + 1) (typed_get (data img) (map_option (\<lambda>i. i + 1) imgIndex));
         res3 = typed_set res2 (index + 2) (typed_get (data img) (map_option (\<lambda>i. i + 2) imgIndex))
     in typed_set res3 (index + 3) (typed_get (data img) (map_option (\<lambda>i. i + 3) imgIndex)))"

text \<open>\<^verbatim>\<open>processChunk\<close> on the state made of the result buffer and the messages posted
  so far.\<close>
definition processChunk ::
  "imageData \<Rightarrow> params \<Rightarrow> real \<Rightarrow> mat3 \<Rightarrow> nat \<Rightarrow> nat
     \<Rightarrow> 8 word list \<times> message list \<Rightarrow> 8 word list \<times> message list" where
  "processChunk img p r m startY endY st =
    (case st of (res, posted) \<Rightarrow>
      (fold (\<lambda>y. fold (copy_pixel img p r m y) [0..<w_proj p]) [startY..<endY] res,
       posted @ [Progress (js_div (real endY) (real (h_proj p)))]))"

definition chunk_start :: "nat \<Rightarrow> nat \<Rightarrow> nat" where
  "chunk_start chunkSize i = i * chunkSize"

definition chunk_end :: "nat \<Rightarrow> nat \<Rightarrow> nat \<Rightarrow> nat" where
  "chunk_end hp chunkSize i = (if i = 9 then hp else (i + 1) * chunkSize)"

text \<open>The radius \<^verbatim>\<open>r\<close> that the handler computes from the parameters.\<close>
definition radius :: "params \<Rightarrow> real" where
  "radius p = real (min (h_proj p) (w_proj p)) / 10 * scale p"

text \<open>The handler: the messages it posts, in order.\<close>
definition onmessage :: "imageData \<Rightarrow> params \<Rightarrow> message list" where
  "onmessage img p =
    (let r = radius p;
         m = rot_mat p;
         result = replicate (w_proj p * h_proj p * 4) 0;
         chunkSize = h_proj p div 10;
         st = fold (\<lambda>i. processChunk img p r m (chunk_start chunkSize i)
                          (chunk_end (h_proj p) chunkSize i))
                [0..<10] (result, [])
     in snd st @ [Done (fst st)])"

section \<open>The fragment shader\<close>

text \<open>
  GLSL leaves a division by zero, \<^verbatim>\<open>clamp\<close> with bounds out of order, \<^verbatim>\<open>acos\<close>
  outside \<open>[-1, 1]\<close> and \<^verbatim>\<open>atan(0, 0)\<close> undefined. In \<^verbatim>\<open>getPixOnImg\<close> a positive
  radius, which the statements about it assume, excludes the first three; \<^verbatim>\<open>atan(0, 0)\<close>
  is taken to be 0, as in JavaScript. In \<^verbatim>\<open>projectToSphere\<close> the denominator is zero only
  when the shader's own \<open>r\<close> and the adjusted pixel are both zero; the model has the value of
  the real division there.
\<close>

record uniforms =
  uSampler :: "vec2 \<Rightarrow> vec4"
  uResolution :: vec2
  uScale :: real
  uRotation :: vec3
  uOffset :: vec2
  uRadius :: real

definition PI :: real where
  "PI = 3.14159265359"

definition TWO_PI :: real where
  "TWO_PI = 6.28318530718"

text \<open>A GLSL \<^verbatim>\<open>mat3\<close>: the triple of its columns. The constructor \<^verbatim>\<open>mat3\<close> of nine
  scalars fills the matrix in column-major order, and \<^verbatim>\<open>m * v\<close> is the linear
  combination of the columns of \<open>m\<close> with the components of \<open>v\<close>.\<close>
datatype glsl_mat3 = Columns vec3 vec3 vec3

definition glsl_mat3 ::
  "real \<Rightarrow> real \<Rightarrow> real \<Rightarrow> real \<Rightarrow> real \<Rightarrow> real \<Rightarrow> real \<Rightarrow> real \<Rightarrow> real \<Rightarrow> glsl_mat3" where
  "glsl_mat3 a b c d e f g h i = Columns (a, b, c) (d, e, f) (g, h, i)"

fun glsl_mul :: "glsl_mat3 \<Rightarrow> vec3 \<Rightarrow> vec3" where
  "glsl_mul (Columns (a, b, c) (d, e, f) (g, h, i)) (x, y, z) =
     (a * x + d * y + g * z, b * x + e * y + h * z, c * x + f * y + i * z)"

definition glsl_clamp :: "real \<Rightarrow> real \<Rightarrow> real \<Rightarrow> real" where
  "glsl_clamp x minVal maxVal = min (max x minVal) maxVal"

definition computeRotationMatrix :: "vec3 \<Rightarrow> glsl_mat3" where
  "computeRotationMatrix rotation =
    (case rotation of (rx, ry, rz) \<Rightarrow>
      (let cosA = cos rx; sinA = sin rx;
           cosB = cos ry; sinB = sin ry;
           cosG = cos rz; sinG = sin rz
       in glsl_mat3
            (cosG * cosB)
            (cosG * sinB * sinA - sinG * cosA)
            (cosG * sinB * cosA + sinG * sinA)
            (sinG * cosB)
            (sinG * sinB * sinA + cosG * cosA)
            (sinG * sinB * cosA - cosG * sinA)
            (- sinB)
            (cosB * sinA)
            (cosB * cosA)))"

definition projectToSphere :: "uniforms \<Rightarrow> vec2 \<Rightarrow> vec3" where
  "projectToSphere u pixel =
    (let adjusted = (fst pixel + (fst (uOffset u) - 0.5) * fst (uResolution u),
                     snd pixel + (snd (uOffset u) - 0.5) * snd (uResolution u));
         r = min (fst (uResolution u)) (snd (uResolution u)) / 10 * uScale u;
         point = (fst adjusted, snd adjusted, 0::real);
         k = 2 * r * r / (fst adjusted * fst adjusted + snd adjusted * snd adjusted + r * r)
     in (k * fst adjusted, k * snd adjusted, (k - 1) * r))"

definition getPixOnImg_fs :: "uniforms \<Rightarrow> vec3 \<Rightarrow> vec2" where
  "getPixOnImg_fs u point =
    (case point of (px, py, pz0) \<Rightarrow>
      (let r = uRadius u;
           pz = glsl_clamp pz0 (- r) r;
           row = arccos (pz / r) / PI;
           col = js_atan2 py px / TWO_PI + 0.5
       in (col, row)))"

definition vec4_add :: "vec4 \<Rightarrow> vec4 \<Rightarrow> vec4" where
  "vec4_add a b =
    (case a of (a0, a1, a2, a3) \<Rightarrow>
      (case b of (b0, b1, b2, b3) \<Rightarrow> (a0 + b0, a1 + b1, a2 + b2, a3 + b3)))"

definition vec4_div :: "vec4 \<Rightarrow> real \<Rightarrow> vec4" where
  "vec4_div a s = (case a of (a0, a1, a2, a3) \<Rightarrow> (a0 / s, a1 / s, a2 / s, a3 / s))"

definition SAMPLES :: nat where
  "SAMPLES = 8"

definition sampleTexture :: "uniforms \<Rightarrow> vec2 \<Rightarrow> vec4" where
  "sampleTexture u coord =
    (let STEP = 1 / real SAMPLES;
         color =
           fold (\<lambda>i. fold (\<lambda>j color.
                   (let offset = (real i * STEP - 0.5, real j * STEP - 0.5);
                        sampleCoord = (fst coord + fst offset / fst (uResolution u),
                                       snd coord + snd offset / snd (uResolution u))
                    in vec4_add color (uSampler u sampleCoord)))
                 [0..<SAMPLES])
             [0..<SAMPLES] (0, 0, 0, 0)
     in vec4_div color (real (SAMPLES * SAMPLES)))"

datatype fragment = Discard | FragColor vec4

text \<open>The texture coordinate that \<^verbatim>\<open>main\<close> computes for a fragment.\<close>
definition imgCoord :: "uniforms \<Rightarrow> vec2 \<Rightarrow> vec2" where
  "imgCoord u vTextureCoord =
    (let pixCoord = (fst vTextureCoord * fst (uResolution u),
                     snd vTextureCoord * snd (uResolution u));
         spherePoint = projectToSphere u pixCoord;
         rotMat = computeRotationMatrix (uRotation u);
         rotatedPoint = glsl_mul rotMat spherePoint
     in getPixOnImg_fs u rotatedPoint)"

definition main_fs :: "uniforms \<Rightarrow> vec2 \<Rightarrow> fragment" where
  "main_fs u vTextureCoord =
    (let c = imgCoord u vTextureCoord
     in if (fst c < 0 \<or> snd c < 0) \<or> (fst c > 1 \<or> snd c > 1) then Discard
        else FragColor (sampleTexture u c))"

text \<open>The uniforms that \<^verbatim>\<open>WebGLRenderer.render\<close> sets from the parameters, for a canvas of the
  output size and a bound texture.\<close>
definition render_uniforms :: "(vec2 \<Rightarrow> vec4) \<Rightarrow> params \<Rightarrow> uniforms" where
  "render_uniforms texture p =
    \<lparr>uSampler = texture,
     uResolution = (real (w_proj p), real (h_proj p)),
     uScale = scale p,
     uRotation = (alpha p, beta p, gamma p),
     uOffset = (offset_hor p, offset_ver p),
     uRadius = real (min (h_proj p) (w_proj p)) / 10 * scale p\<rparr>"

section \<open>Matrices of the specification\<close>

definition mat3_transpose :: "mat3 \<Rightarrow> mat3" where
  "mat3_transpose m =
    (case m of ((m00, m01, m02), (m10, m11, m12), (m20, m21, m22)) \<Rightarrow>
      ((m00, m10, m20), (m01, m11, m21), (m02, m12, m22)))"

definition mat3_id :: mat3 where
  "mat3_id = ((1, 0, 0), (0, 1, 0), (0, 0, 1))"

text \<open>The matrix product \<open>a \<cdot> b\<close>.\<close>
definition mat3_mul :: "mat3 \<Rightarrow> mat3 \<Rightarrow> mat3" where
  "mat3_mul a b =
    (case a of ((a00, a01, a02), (a10, a11, a12), (a20, a21, a22)) \<Rightarrow>
      (case b of ((b00, b01, b02), (b10, b11, b12), (b20, b21, b22)) \<Rightarrow>
        ((a00 * b00 + a01 * b10 + a02 * b20,
          a00 * b01 + a01 * b11 + a02 * b21,
          a00 * b02 + a01 * b12 + a02 * b22),
         (a10 * b00 + a11 * b10 + a12 * b20,
          a10 * b01 + a11 * b11 + a12 * b21,
          a10 * b02 + a11 * b12 + a12 * b22),
         (a20 * b00 + a21 * b10 + a22 * b20,
          a20 * b01 + a21 * b11 + a22 * b21,
          a20 * b02 + a21 * b12 + a22 * b22))))"

text \<open>The elementary rotations of the Euler composition \<open>Z(\<gamma>) \<cdot> Y(\<beta>) \<cdot> X(\<alpha>)\<close> that the
  specification names.\<close>
definition rot_x :: "real \<Rightarrow> mat3" where
  "rot_x a = ((1, 0, 0), (0, cos a, - sin a), (0, sin a, cos a))"

definition rot_y :: "real \<Rightarrow> mat3" where
  "rot_y b = ((cos b, 0, sin b), (0, 1, 0), (- sin b, 0, cos b))"

definition rot_z :: "real \<Rightarrow> mat3" where
  "rot_z g = ((cos g, - sin g, 0), (sin g, cos g, 0), (0, 0, 1))"

section \<open>The forward mapping as the specification words it\<close>

text \<open>Step 4 of the specification's projection: the point's \<open>z\<close> is clamped to at most \<open>r\<close>, then
  \<^verbatim>\<open>sourceRow = round(acos(z/r)/pi) mod sourceHeight\<close> and
  \<^verbatim>\<open>sourceCol = round((atan2(y,x)/(2 pi) + 0.5)) mod sourceWidth\<close>.\<close>
definition spec_source_coord :: "vec3 \<Rightarrow> real \<Rightarrow> nat \<Rightarrow> nat \<Rightarrow> int \<times> int" where
  "spec_source_coord point r sourceHeight sourceWidth =
    (case point of (x, y, z0) \<Rightarrow>
      (let z = min z0 r
       in (round (arccos (z / r) / pi) mod int sourceHeight,
           round (js_atan2 y x / (2 * pi) + 0.5) mod int sourceWidth)))"

section \<open>Notions used in the statements\<close>

text \<open>The pixel loops of \<^verbatim>\<open>processChunk\<close> run over a list of rows, with the radius and the
  matrix that the handler computes.\<close>
definition raster_rows :: "imageData \<Rightarrow> params \<Rightarrow> nat list \<Rightarrow> 8 word list \<Rightarrow> 8 word list" where
  "raster_rows img p ys res =
     fold (\<lambda>y. fold (copy_pixel img p (radius p) (rot_mat p) y) [0..<w_proj p]) ys res"

text \<open>The values of the progress messages in a list of messages, in order.\<close>
fun progress_values :: "message list \<Rightarrow> real option list" where
  "progress_values [] = []"
| "progress_values (Progress v # ms) = v # progress_values ms"
| "progress_values (Done b # ms) = progress_values ms"

section \<open>Sample inputs\<close>

text \<open>A source image of 400 by 200 pixels, each \<open>(255, 0, 0, 255)\<close>, and the parameters of the
  800 by 600 scenario of the specification.\<close>
definition red_image :: imageData where
  "red_image = \<lparr>data = concat (replicate (400 * 200) [255, 0, 0, 255]), width = 400, height = 200\<rparr>"

definition scenario_params :: params where
  "scenario_params = \<lparr>w_proj = 800, h_proj = 600, scale = 1, alpha = 0, beta = 0, gamma = 0,
          offset_hor = 0.5, offset_ver = 0.5\<rparr>"

text \<open>An output of 3 by 5 pixels: fewer rows than chunks.\<close>
definition small_params :: params where
  "small_params = \<lparr>w_proj = 3, h_proj = 5, scale = 1, alpha = 0, beta = 0, gamma = 0,
          offset_hor = 0.5, offset_ver = 0.5\<rparr>"

definition img0 :: imageData where
  "img0 = \<lparr>data = [1, 2, 3, 4, 5, 6, 7, 8], width = 1, height = 2\<rparr>"

definition p0 :: params where
  "p0 = \<lparr>w_proj = 20, h_proj = 10, scale = 1, alpha = 0, beta = 0, gamma = 0,
          offset_hor = 0.5, offset_ver = 0.5\<rparr>"

text \<open>A rotation by a quarter turn about the third axis.\<close>
definition quarter_turn :: params where
  "quarter_turn = \<lparr>w_proj = 20, h_proj = 10, scale = 1, alpha = 0, beta = 0, gamma = pi / 2,
          offset_hor = 0.5, offset_ver = 0.5\<rparr>"

text \<open>The radius and the rotated point that the worker gets in IEEE double arithmetic for the
  scale 0.8500000000000001, \<^verbatim>\<open>beta = Math.PI / 2\<close>, the other angles 0, the offsets 0.5, an
  output of 800 by 600 and the output pixel in row 51 and column 0: \<open>r\<close> is the double
  51.00000000000001 and the point is \<open>(1.444712418900235e-14, 0, -51.000000000000014)\<close>,
  written here as the exact values of these doubles. The rounding that leads to them is
  outside this theory.\<close>
definition rounded_radius :: real where
  "rounded_radius = 7177611906121729 / 2 ^ 47"

definition rounded_point :: vec3 where
  "rounded_point = (2289238206220075 / 2 ^ 97, 0, - (3588805953060865 / 2 ^ 46))"


section \<open>The rotation matrix\<close>

lemma rot_mat_decomp:
  "rot_mat p = mat3_mul (rot_z (gamma p)) (mat3_mul (rot_y (beta p)) (rot_x (alpha p)))"
  by (simp add: rot_mat_def mat3_mul_def rot_x_def rot_y_def rot_z_def algebra_simps)

lemma axisRotate_mat3_mul: "axisRotate P (mat3_mul a b) = axisRotate (axisRotate P b) a"
  by (cases P; cases a rule: prod_cases3; cases b rule: prod_cases3)
     (auto simp: axisRotate_def mat3_mul_def algebra_simps)

lemma axisRotate_id: "axisRotate P mat3_id = P"
  by (cases P) (simp add: axisRotate_def mat3_id_def)

lemma mat3_mul_assoc: "mat3_mul (mat3_mul a b) c = mat3_mul a (mat3_mul b c)"
  by (cases a rule: prod_cases3; cases b rule: prod_cases3; cases c rule: prod_cases3)
     (auto simp: mat3_mul_def algebra_simps)

lemma mat3_mul_id_left: "mat3_mul mat3_id a = a"
  by (cases a rule: prod_cases3) (auto simp: mat3_mul_def mat3_id_def)

lemma mat3_transpose_mul:
  "mat3_transpose (mat3_mul a b) = mat3_mul (mat3_transpose b) (mat3_transpose a)"
  by (cases a rule: prod_cases3; cases b rule: prod_cases3)
     (auto simp: mat3_mul_def mat3_transpose_def algebra_simps)

lemma mat3_transpose_rot:
  "mat3_transpose (rot_x a) = rot_x (- a)"
  "mat3_transpose (rot_y a) = rot_y (- a)"
  "mat3_transpose (rot_z a) = rot_z (- a)"
  by (simp_all add: mat3_transpose_def rot_x_def rot_y_def rot_z_def)

lemma sin_cos_sq: "sin a * sin a + cos a * cos a = (1::real)"
  using sin_cos_squared_add[of a] by (simp add: power2_eq_square)

lemma rot_inverse:
  "mat3_mul (rot_x (- a)) (rot_x a) = mat3_id"
  "mat3_mul (rot_y (- a)) (rot_y a) = mat3_id"
  "mat3_mul (rot_z (- a)) (rot_z a) = mat3_id"
  using sin_cos_sq[of a]
  by (simp_all add: mat3_mul_def mat3_id_def rot_x_def rot_y_def rot_z_def add.commute)

lemma rot_mat_transpose:
  "mat3_transpose (rot_mat p) =
     mat3_mul (rot_x (- alpha p)) (mat3_mul (rot_y (- beta p)) (rot_z (- gamma p)))"
  by (simp add: rot_mat_decomp mat3_transpose_mul mat3_transpose_rot mat3_mul_assoc)

lemma rot_cancel:
  "mat3_mul (rot_x (- a)) (mat3_mul (rot_x a) m) = m"
  "mat3_mul (rot_y (- a)) (mat3_mul (rot_y a) m) = m"
  "mat3_mul (rot_z (- a)) (mat3_mul (rot_z a) m) = m"
  by (simp_all add: mat3_mul_assoc [symmetric] rot_inverse mat3_mul_id_left)

lemma rot_mat_orthonormal: "mat3_mul (mat3_transpose (rot_mat p)) (rot_mat p) = mat3_id"
proof -
  have "mat3_mul (mat3_transpose (rot_mat p)) (rot_mat p)
      = mat3_mul (rot_x (- alpha p)) (mat3_mul (rot_y (- beta p)) (mat3_mul (rot_z (- gamma p))
          (mat3_mul (rot_z (gamma p)) (mat3_mul (rot_y (beta p)) (rot_x (alpha p))))))"
    unfolding rot_mat_transpose by (simp add: rot_mat_decomp mat3_mul_assoc)
  then show ?thesis
    by (simp add: rot_cancel rot_inverse)
qed

text \<open>
  C8. For every angle triple and every point \<open>P\<close>, rotating \<open>P\<close> with the worker's matrix
  \<open>M\<close> and then with the inverse built from the negated angles in reverse composition
  order, \<open>X(-\<alpha>) \<cdot> Y(-\<beta>) \<cdot> Z(-\<gamma>)\<close>, gives \<open>P\<close> back, exactly over the reals; that inverse is
  the transpose of \<open>M\<close>, and \<open>transpose(M) \<cdot> M\<close> is the identity.
\<close>
theorem rotation_round_trip:
  "axisRotate (axisRotate P (rot_mat p))
     (mat3_mul (rot_x (- alpha p)) (mat3_mul (rot_y (- beta p)) (rot_z (- gamma p)))) = P
   \<and> mat3_mul (rot_x (- alpha p)) (mat3_mul (rot_y (- beta p)) (rot_z (- gamma p)))
       = mat3_transpose (rot_mat p)
   \<and> mat3_mul (mat3_transpose (rot_mat p)) (rot_mat p) = mat3_id"
proof -
  have "axisRotate (axisRotate P (rot_mat p)) (mat3_transpose (rot_mat p)) = P"
    by (simp add: axisRotate_mat3_mul [symmetric] rot_mat_orthonormal axisRotate_id)
  then show ?thesis
    by (simp add: rot_mat_transpose [symmetric] rot_mat_orthonormal)
qed

section \<open>The source pixel of a sphere point\<close>

lemma js_rem_nonneg: "0 \<le> a \<Longrightarrow> 0 < b \<Longrightarrow> js_rem a b = Some (a mod b)"
  by (cases "a = 0") (simp_all add: js_rem_def)

lemma js_atan2_bounds: "- pi \<le> js_atan2 y x \<and> js_atan2 y x \<le> pi"
  using arctan_bounded [of "y / x"] pi_gt_zero
  by (auto simp: js_atan2_def divide_le_0_iff zero_le_divide_iff)

lemma js_round_eq: "js_round v = round v"
  by (simp add: js_round_def round_def)

lemma js_rem_round_row:
  assumes "0 \<le> t" and "0 < n"
  shows "js_rem (js_round (t * real n)) (int n) = Some (round (t * real n) mod int n)"
proof -
  have "round (0::real) \<le> round (t * real n)"
    using assms by (intro round_mono) simp
  then show ?thesis
    using assms by (simp add: js_round_eq js_rem_nonneg)
qed

lemma row_fraction_bounds:
  assumes "0 < r" and "- r \<le> z"
  shows "0 \<le> arccos (min z r / r) / pi \<and> arccos (min z r / r) / pi \<le> 1"
proof -
  have "- 1 \<le> min z r / r" "min z r / r \<le> 1"
    using assms by (simp_all add: pos_le_divide_eq pos_divide_le_eq)
  then have "0 \<le> arccos (min z r / r)" "arccos (min z r / r) \<le> pi"
    by (simp_all add: arccos_lbound arccos_ubound)
  then show ?thesis by (simp add: divide_le_eq_1)
qed

lemma col_fraction_bounds:
  "0 \<le> js_atan2 y x / (2 * pi) + 0.5 \<and> js_atan2 y x / (2 * pi) + 0.5 \<le> 1"
proof -
  have lo: "- (1 / 2) \<le> js_atan2 y x / (2 * pi)"
    using js_atan2_bounds [of y x] by (simp add: pos_le_divide_eq)
  have hi: "js_atan2 y x / (2 * pi) \<le> 1 / 2"
    using js_atan2_bounds [of y x] by (simp add: pos_divide_le_eq)
  from lo hi show ?thesis by linarith
qed

lemma getPixOnImg_value:
  assumes "0 < r" and "- r \<le> z" and "0 < h_img" and "0 < w_img"
  shows "getPixOnImg (x, y, z) r h_img w_img =
    (Some (round (arccos (min z r / r) / pi * real h_img) mod int h_img),
     Some (round ((js_atan2 y x / (2 * pi) + 0.5) * real w_img) mod int w_img))"
proof -
  have z: "(if r < z then r else z) = min z r" by (simp add: min_def)
  have dom: "- 1 \<le> min z r / r" "min z r / r \<le> 1"
    using assms by (simp_all add: pos_le_divide_eq pos_divide_le_eq)
  have row: "Option.bind (Option.bind (js_div (min z r) r) js_acos) (\<lambda>a. Some (a / pi))
      = Some (arccos (min z r / r) / pi)"
    using assms(1) dom by (simp add: js_div_def js_acos_def)
  have r1: "js_rem (js_round (arccos (min z r / r) / pi * real h_img)) (int h_img)
      = Some (round (arccos (min z r / r) / pi * real h_img) mod int h_img)"
    using row_fraction_bounds [OF assms(1,2)] assms(3) by (intro js_rem_round_row) simp_all
  have c1: "js_rem (js_round ((js_atan2 y x / (2 * pi) + 0.5) * real w_img)) (int w_img)
      = Some (round ((js_atan2 y x / (2 * pi) + 0.5) * real w_img) mod int w_img)"
    using col_fraction_bounds [of y x] assms(4) by (intro js_rem_round_row) simp_all
  show ?thesis
    by (simp only: getPixOnImg_def prod.case Let_def z row bind.bind_lunit r1 c1)
qed

lemma getPixOnImg_in_bounds:
  assumes "0 < r" and "- r \<le> z" and "0 < h_img" and "0 < w_img"
  shows "\<exists>a b. getPixOnImg (x, y, z) r h_img w_img = (Some a, Some b)
           \<and> 0 \<le> a \<and> a < int h_img \<and> 0 \<le> b \<and> b < int w_img"
  using assms by (simp add: getPixOnImg_value)

text \<open>Below \<open>- r\<close> nothing clamps \<open>z\<close>: the arc cosine, and with it the row, is \<^verbatim>\<open>NaN\<close>.\<close>
lemma getPixOnImg_NaN:
  assumes "0 < r" and "z < - r"
  shows "fst (getPixOnImg (x, y, z) r h_img w_img) = None"
  using assms by (simp add: getPixOnImg_def js_div_def js_acos_def pos_le_divide_eq)

section \<open>The sphere point stays on the sphere\<close>

lemma getPointOnSphere_on_sphere:
  assumes "r \<noteq> 0"
  shows "\<exists>a b c. getPointOnSphere (x, y, z) r = Some (a, b, c) \<and> a\<^sup>2 + b\<^sup>2 + c\<^sup>2 = r\<^sup>2"
proof -
  define d where "d = x\<^sup>2 + y\<^sup>2 + r\<^sup>2"
  define k where "k = 2 * r\<^sup>2 / d"
  have "0 < r\<^sup>2" using assms by simp
  then have d: "0 < d" unfolding d_def by (simp add: add_nonneg_pos)
  then have kd: "k * (x\<^sup>2 + y\<^sup>2 + r\<^sup>2) = 2 * r\<^sup>2"
    by (simp add: k_def d_def [symmetric])
  have "(k * x)\<^sup>2 + (k * y)\<^sup>2 + ((k - 1) * r)\<^sup>2 = r\<^sup>2"
    using kd by algebra
  moreover have "getPointOnSphere (x, y, z) r = Some (k * x, k * y, (k - 1) * r)"
    using d by (simp add: getPointOnSphere_def js_div_def k_def d_def)
  ultimately show ?thesis by blast
qed

lemma rot_mat_third_row_unit:
  "(sin (beta p))\<^sup>2 + (cos (beta p) * sin (alpha p))\<^sup>2 + (cos (beta p) * cos (alpha p))\<^sup>2 = 1"
  using sin_cos_squared_add [of "alpha p"] sin_cos_squared_add [of "beta p"] by algebra

lemma cauchy_schwarz3:
  fixes a b c u v w :: real
  shows "(u * a + v * b + w * c)\<^sup>2 \<le> (u\<^sup>2 + v\<^sup>2 + w\<^sup>2) * (a\<^sup>2 + b\<^sup>2 + c\<^sup>2)"
proof -
  have "(u\<^sup>2 + v\<^sup>2 + w\<^sup>2) * (a\<^sup>2 + b\<^sup>2 + c\<^sup>2) - (u * a + v * b + w * c)\<^sup>2
      = (u * b - v * a)\<^sup>2 + (u * c - w * a)\<^sup>2 + (v * c - w * b)\<^sup>2"
    by algebra
  moreover have "0 \<le> (u * b - v * a)\<^sup>2 + (u * c - w * a)\<^sup>2 + (v * c - w * b)\<^sup>2"
    by simp
  ultimately show ?thesis by linarith
qed

lemma axisRotate_z_bound:
  assumes "0 < r" and "a\<^sup>2 + b\<^sup>2 + c\<^sup>2 = r\<^sup>2"
  shows "\<exists>x' y' z'. axisRotate (a, b, c) (rot_mat p) = (x', y', z') \<and> - r \<le> z' \<and> z' \<le> r"
proof -
  define z' where "z' = - sin (beta p) * a + cos (beta p) * sin (alpha p) * b
     + cos (beta p) * cos (alpha p) * c"
  have "z'\<^sup>2 \<le> ((- sin (beta p))\<^sup>2 + (cos (beta p) * sin (alpha p))\<^sup>2
      + (cos (beta p) * cos (alpha p))\<^sup>2) * (a\<^sup>2 + b\<^sup>2 + c\<^sup>2)"
    unfolding z'_def by (rule cauchy_schwarz3)
  then have "z'\<^sup>2 \<le> r\<^sup>2"
    using rot_mat_third_row_unit [of p] assms(2) by simp
  then have "\<bar>z'\<bar> \<le> r"
    using assms(1) by (simp add: power2_le_iff_abs_le)
  then have "- r \<le> z' \<and> z' \<le> r" by linarith
  moreover have "snd (snd (axisRotate (a, b, c) (rot_mat p))) = z'"
    by (simp add: axisRotate_def rot_mat_def z'_def)
  ultimately show ?thesis
    by (metis prod.collapse)
qed

lemma projection_in_bounds:
  assumes "0 < r" and "0 < h_img" and "0 < w_img"
  shows "\<exists>a b. projection pix_proj r h_img w_img hp wp off_hor off_ver (rot_mat p) = (Some a, Some b)
           \<and> 0 \<le> a \<and> a < int h_img \<and> 0 \<le> b \<and> b < int w_img"
proof -
  obtain row col where pix: "pix_proj = (row, col)" by (cases pix_proj)
  let ?x = "real row + (off_ver - 0.5) * real hp"
  let ?y = "real col + (off_hor - 0.5) * real wp"
  obtain a b c where P: "getPointOnSphere (?x, ?y, 0) r = Some (a, b, c)"
      and n: "a\<^sup>2 + b\<^sup>2 + c\<^sup>2 = r\<^sup>2"
    using getPointOnSphere_on_sphere [of r ?x ?y 0] assms(1) by auto
  obtain x' y' z' where R: "axisRotate (a, b, c) (rot_mat p) = (x', y', z')"
      and z: "- r \<le> z'" "z' \<le> r"
    using axisRotate_z_bound [OF assms(1) n, of p] by auto
  have "projection pix_proj r h_img w_img hp wp off_hor off_ver (rot_mat p)
      = getPixOnImg (x', y', z') r h_img w_img"
    by (simp only: projection_def pix prod.case Let_def P option.case R)
  then show ?thesis
    using getPixOnImg_in_bounds [OF assms(1) z(1) assms(2,3), of x' y'] by simp
qed

section \<open>The forward mapping of the worker\<close>

text \<open>
  C2 (as stated). The worker's \<^verbatim>\<open>getPixOnImg\<close> does not compute the formulas of step 4 as
  the specification words them: at the point \<open>(1, 0, 0)\<close> with \<open>r = 1\<close> and a 400 by 200 source
  it returns row 100 and column 200, where the worded formulas give row 1 and column 1.
\<close>
theorem getPixOnImg_not_spec_formula:
  "getPixOnImg (1, 0, 0) 1 200 400 = (Some 100, Some 200)
   \<and> spec_source_coord (1, 0, 0) 1 200 400 = (1, 1)"
  by (simp add: getPixOnImg_def spec_source_coord_def js_div_def js_acos_def js_atan2_def
      js_round_def js_rem_def round_def)

text \<open>
  C2 (amended). For \<open>r > 0\<close>, a point with \<open>- r \<le> z\<close> and a source of positive size, the
  worker scales the fractions by the source size before rounding:
  row \<open>round(acos(min(z, r) / r) / pi \<cdot> h_img) mod h_img\<close> and
  column \<open>round((atan2(y, x) / (2 pi) + 0.5) \<cdot> w_img) mod w_img\<close>.
\<close>
theorem getPixOnImg_scaled_formula:
  assumes "0 < r" and "- r \<le> z" and "0 < h_img" and "0 < w_img"
  shows "getPixOnImg (x, y, z) r h_img w_img =
    (Some (round (arccos (min z r / r) / pi * real h_img) mod int h_img),
     Some (round ((js_atan2 y x / (2 * pi) + 0.5) * real w_img) mod int w_img))"
  using assms by (rule getPixOnImg_value)

theorem getPixOnImg_scaled_formula_witness:
  "(0::real) < 2 \<and> - 2 \<le> (2::real) \<and> (0::nat) < 200 \<and> (0::nat) < 400
   \<and> getPixOnImg (0, 3, 2) 2 200 400 = (Some 0, Some 300)"
  using getPixOnImg_scaled_formula [of 2 2 200 400 0 3]
  by (simp add: js_atan2_def)

section \<open>Reading the source buffer\<close>

lemma img_index_readable:
  assumes "0 \<le> a" and "a < int (height img)" and "0 \<le> b" and "b < int (width img)"
    and "length (data img) = width img * height img * 4" and "k < 4"
  shows "typed_get (data img) (map_option (\<lambda>i. i + int k) (img_index img (Some a, Some b)))
    = Some (data img ! (((nat a) * width img + nat b) * 4 + k))"
proof -
  obtain a' b' where ab: "a = int a'" "b = int b'"
    using assms(1,3) by (metis nonneg_int_cases)
  have "a' < height img" "b' < width img" using assms(2,4) ab by simp_all
  then have "a' * width img + b' < height img * width img"
    by (metis Suc_leI add_less_cancel_left less_le_trans mult_Suc mult_le_mono1 add.commute)
  then have "(a' * width img + b') * 4 + k < length (data img)"
    using assms(5,6) by (simp add: mult.commute)
  moreover have "(int a' * int (width img) + int b') * 4 + int k
      = int ((a' * width img + b') * 4 + k)" by simp
  ultimately show ?thesis
    unfolding ab img_index_def typed_get_def
    by (simp del: of_nat_add of_nat_mult)
qed

lemma radius_pos:
  assumes "0 < scale p" and "0 < w_proj p" and "0 < h_proj p"
  shows "0 < radius p"
  using assms by (simp add: radius_def)

section \<open>The missing lower clamp\<close>

text \<open>When the row is \<^verbatim>\<open>NaN\<close> the copy stores four zero bytes for the output pixel.\<close>
lemma copy_pixel_NaN_row:
  assumes "projection (y, x) r (height img) (width img) (h_proj p) (w_proj p)
             (offset_hor p) (offset_ver p) m = (None, c)"
  shows "copy_pixel img p r m y x res =
    res[(y * w_proj p + x) * 4 := 0, (y * w_proj p + x) * 4 + 1 := 0,
        (y * w_proj p + x) * 4 + 2 := 0, (y * w_proj p + x) * 4 + 3 := 0]"
  by (simp only: copy_pixel_def Let_def assms img_index_def prod.case option.case
      option.map typed_get_def typed_set_def)

text \<open>
  C3. The worker clamps \<open>z\<close> only from above, where the shader clamps it to \<open>[- r, r]\<close>. Over
  the reals the rotated point never has \<open>z < - r\<close>, but in double arithmetic it does: at the
  rotated point of the sample input, \<open>z / r\<close> is below \<open>- 1\<close>, the row is \<^verbatim>\<open>NaN\<close>, the
  index into the source buffer is \<^verbatim>\<open>NaN\<close>, the read is \<^verbatim>\<open>undefined\<close> and the bytes stored for
  the output pixel are 0. The source coordinate is not in \<open>[0, height) \<times> [0, width)\<close>.
\<close>
theorem lower_clamp_missing:
  "getPixOnImg rounded_point rounded_radius 200 400 = (None, Some 200)
   \<and> img_index red_image (getPixOnImg rounded_point rounded_radius 200 400) = None
   \<and> typed_get (data red_image) None = None
   \<and> typed_set res i None = res[i := 0]"
proof -
  have "getPixOnImg rounded_point rounded_radius 200 400 = (None, Some 200)"
    by (simp add: getPixOnImg_def rounded_point_def rounded_radius_def js_div_def js_acos_def
        js_atan2_def js_round_def js_rem_def)
  then show ?thesis
    by (simp add: img_index_def typed_get_def typed_set_def)
qed

section \<open>The loops of the handler\<close>

lemma fold_invariant:
  assumes "\<And>i b. I b \<Longrightarrow> I (f i b)" and "I b"
  shows "I (fold f xs b)"
  using assms(2) by (induction xs arbitrary: b) (simp_all add: assms(1))

lemma fold_establish:
  assumes inv: "\<And>i b. I b \<Longrightarrow> I (f i b)"
    and pres: "\<And>i b. I b \<Longrightarrow> P b \<Longrightarrow> P (f i b)"
    and est: "\<And>b. I b \<Longrightarrow> P (f i0 b)"
    and "I b" and "i0 \<in> set xs"
  shows "P (fold f xs b)"
  using assms(4,5)
proof (induction xs arbitrary: b)
  case Nil
  then show ?case by simp
next
  case (Cons a xs)
  show ?case
  proof (cases "i0 \<in> set xs")
    case True
    then show ?thesis using Cons.IH [of "f a b"] Cons.prems(1) inv by simp
  next
    case False
    then have "a = i0" using Cons.prems(2) by simp
    then have "I (f a b) \<and> P (f a b)" using Cons.prems(1) inv est by simp
    then have "I (fold f xs (f a b)) \<and> P (fold f xs (f a b))"
      using fold_invariant [of "\<lambda>b. I b \<and> P b" f "f a b" xs] inv pres by blast
    then show ?thesis by simp
  qed
qed

lemma full_chunks_concat:
  "concat (map (\<lambda>i. [i * c..<(i + 1) * c]) [0..<n]) = [0..<n * c]"
proof (induction n)
  case 0
  show ?case by simp
next
  case (Suc n)
  have "[0..<n * c] @ [n * c..<n * c + c] = [0..<n * c + c]"
    using upt_add_eq_append [of 0 "n * c" c] by simp
  then show ?case using Suc by (simp add: add.commute)
qed

lemma chunks_cover:
  "concat (map (\<lambda>i. [chunk_start (hp div 10) i..<chunk_end hp (hp div 10) i]) [0..<10]) = [0..<hp]"
proof -
  define c where "c = hp div 10"
  let ?f = "\<lambda>i. [chunk_start c i..<chunk_end hp c i]"
  have le: "9 * c \<le> hp" unfolding c_def by simp
  have full: "map ?f [0..<9] = map (\<lambda>i. [i * c..<(i + 1) * c]) [0..<9]"
    by (rule map_cong) (simp_all add: chunk_start_def chunk_end_def)
  have last: "?f 9 = [9 * c..<hp]"
    by (simp add: chunk_start_def chunk_end_def)
  have "[0..<10] = [0..<9] @ [9::nat]"
    using upt_Suc_append [of 0 9] by simp
  then have "concat (map ?f [0..<10]) = concat (map ?f [0..<9]) @ ?f 9"
    by (simp only: map_append concat_append list.map concat.simps append_Nil2)
  also have "\<dots> = [0..<9 * c] @ [9 * c..<hp]"
    by (simp only: full last full_chunks_concat)
  also have "\<dots> = [0..<hp]"
    using le upt_add_eq_append [of 0 "9 * c" "hp - 9 * c"] by simp
  finally show ?thesis unfolding c_def .
qed

lemma fold_processChunk:
  "fold (\<lambda>i. processChunk img p r m (s i) (e i)) js (res, posted) =
     (fold (\<lambda>y. fold (copy_pixel img p r m y) [0..<w_proj p])
        (concat (map (\<lambda>i. [s i..<e i]) js)) res,
      posted @ map (\<lambda>i. Progress (js_div (real (e i)) (real (h_proj p)))) js)"
  by (induction js arbitrary: res posted) (simp_all add: processChunk_def)

lemma onmessage_eq:
  "onmessage img p =
     map (\<lambda>i. Progress (js_div (real (chunk_end (h_proj p) (h_proj p div 10) i)) (real (h_proj p))))
       [0..<10]
     @ [Done (raster_rows img p [0..<h_proj p] (replicate (w_proj p * h_proj p * 4) 0))]"
  by (simp only: onmessage_def Let_def fold_processChunk chunks_cover raster_rows_def
      fst_conv snd_conv append_Nil)

lemma progress_values_append:
  "progress_values (map Progress vs @ [Done b]) = vs"
  by (induction vs) simp_all

lemma progress_values_onmessage:
  "progress_values (onmessage img p) =
     map (\<lambda>i. js_div (real (chunk_end (h_proj p) (h_proj p div 10) i)) (real (h_proj p))) [0..<10]"
proof -
  have "map (\<lambda>i. Progress (js_div (real (chunk_end (h_proj p) (h_proj p div 10) i)) (real (h_proj p)))) [0..<10]
    = map Progress (map (\<lambda>i. js_div (real (chunk_end (h_proj p) (h_proj p div 10) i)) (real (h_proj p))) [0..<10])"
    by simp
  then show ?thesis
    by (simp only: onmessage_eq progress_values_append)
qed

lemma upt_10: "[0..<10] = [0, 1, 2, 3, 4, 5, 6, 7, 8, 9::nat]"
  by (simp add: upt_rec)

lemma upt_10_split: "[0..<10] = [0..<9] @ [9::nat]"
  using upt_Suc_append [of 0 9] by simp

lemma chunk_heights:
  "map (\<lambda>i. chunk_end hp (hp div 10) i - chunk_start (hp div 10) i) [0..<10]
     = replicate 9 (hp div 10) @ [hp - 9 * (hp div 10)]"
proof -
  let ?g = "\<lambda>i. chunk_end hp (hp div 10) i - chunk_start (hp div 10) i"
  have "map ?g [0..<9] = map (\<lambda>i. hp div 10) [0..<9]"
    by (rule map_cong) (simp_all add: chunk_start_def chunk_end_def)
  then have "map ?g [0..<9] = replicate 9 (hp div 10)"
    by (simp only: map_replicate_const length_upt diff_zero)
  moreover have "?g 9 = hp - 9 * (hp div 10)"
    by (simp add: chunk_start_def chunk_end_def)
  ultimately show ?thesis
    by (simp only: upt_10_split map_append list.map)
qed

lemma progress_600:
  "map (\<lambda>i. js_div (real (chunk_end 600 (600 div 10) i)) (real 600)) [0..<10]
    = [Some 0.1, Some 0.2, Some 0.3, Some 0.4, Some 0.5, Some 0.6, Some 0.7, Some 0.8, Some 0.9, Some 1]"
  by (simp add: upt_10 chunk_end_def js_div_def)

lemma ten_chunks_le: "10 * (hp div 10) \<le> (hp::nat)"
  by simp

lemma chunk_end_inner: "i \<noteq> 9 \<Longrightarrow> chunk_end hp c i = (i + 1) * c"
  by (simp add: chunk_end_def)

lemma chunk_end_last: "chunk_end hp c 9 = hp"
  by (simp add: chunk_end_def)

lemma chunk_end_le:
  assumes "i < 10"
  shows "chunk_end hp (hp div 10) i \<le> hp"
proof (cases "i = 9")
  case True
  then show ?thesis by (simp only: chunk_end_last)
next
  case False
  have "(i + 1) * (hp div 10) \<le> 10 * (hp div 10)"
    using assms by (intro mult_le_mono1) simp
  also have "\<dots> \<le> hp" by (rule ten_chunks_le)
  finally show ?thesis by (simp only: chunk_end_inner [OF False])
qed

lemma chunk_end_mono:
  assumes "i \<le> j" and "j < 10"
  shows "chunk_end hp (hp div 10) i \<le> chunk_end hp (hp div 10) j"
proof (cases "j = 9")
  case True
  have "i < 10" using assms by simp
  then show ?thesis using chunk_end_le [of i hp] by (simp only: True chunk_end_last)
next
  case False
  then have i: "i \<noteq> 9" using assms by simp
  have "(i + 1) * (hp div 10) \<le> (j + 1) * (hp div 10)"
    using assms(1) by (intro mult_le_mono1) simp
  then show ?thesis by (simp only: chunk_end_inner [OF False] chunk_end_inner [OF i])
qed

lemma chunk_end_strict:
  assumes "10 \<le> hp" and "i < j" and "j < 10"
  shows "chunk_end hp (hp div 10) i < chunk_end hp (hp div 10) j"
proof -
  have c: "0 < hp div 10" using assms(1) by (simp add: div_greater_zero_iff)
  have i: "i \<noteq> 9" using assms by simp
  show ?thesis
  proof (cases "j = 9")
    case True
    have "(i + 1) * (hp div 10) \<le> 9 * (hp div 10)"
      using assms(2) True by (intro mult_le_mono1) simp
    also have "\<dots> < 10 * (hp div 10)" using c by simp
    also have "\<dots> \<le> hp" by (rule ten_chunks_le)
    finally show ?thesis by (simp only: True chunk_end_last chunk_end_inner [OF i])
  next
    case False
    have "i + 1 < j + 1" using assms(2) by simp
    then have "(i + 1) * (hp div 10) < (j + 1) * (hp div 10)"
      using c by (rule mult_less_mono1)
    then show ?thesis by (simp only: chunk_end_inner [OF False] chunk_end_inner [OF i])
  qed
qed

lemma chunk_end_pos:
  assumes "10 \<le> hp"
  shows "0 < chunk_end hp (hp div 10) i"
  using assms by (simp add: chunk_end_def div_greater_zero_iff)

section \<open>Chunks and progress messages\<close>

text \<open>
  C5. For every output height the ten chunks, taken in the order of the loop, are contiguous
  and cover the rows \<open>0, \<dots>, h_proj - 1\<close>; the first nine have \<open>floor(h_proj / 10)\<close> rows and
  the last one has the remaining rows. The handler posts one progress message after each
  chunk, with the value (end row of the chunk) / \<open>h_proj\<close>, and then the \<^verbatim>\<open>done\<close> message with
  the buffer filled row by row. For \<open>h_proj = 600\<close> the progress values are
  \<open>0.1, 0.2, \<dots>, 1.0\<close>, in this order, all before \<^verbatim>\<open>done\<close>.
\<close>
theorem raster_chunks_and_progress:
  "concat (map (\<lambda>i. [chunk_start (h_proj p div 10) i..<chunk_end (h_proj p) (h_proj p div 10) i])
      [0..<10]) = [0..<h_proj p]
   \<and> map (\<lambda>i. chunk_end (h_proj p) (h_proj p div 10) i - chunk_start (h_proj p div 10) i) [0..<10]
       = replicate 9 (h_proj p div 10) @ [h_proj p - 9 * (h_proj p div 10)]
   \<and> onmessage img p =
       map (\<lambda>i. Progress (js_div (real (chunk_end (h_proj p) (h_proj p div 10) i)) (real (h_proj p))))
         [0..<10]
       @ [Done (raster_rows img p [0..<h_proj p] (replicate (w_proj p * h_proj p * 4) 0))]
   \<and> (h_proj p = 600 \<longrightarrow>
        onmessage img p =
          [Progress (Some 0.1), Progress (Some 0.2), Progress (Some 0.3), Progress (Some 0.4),
           Progress (Some 0.5), Progress (Some 0.6), Progress (Some 0.7), Progress (Some 0.8),
           Progress (Some 0.9), Progress (Some 1),
           Done (raster_rows img p [0..<h_proj p] (replicate (w_proj p * h_proj p * 4) 0))])"
proof -
  have "onmessage img p =
          [Progress (Some 0.1), Progress (Some 0.2), Progress (Some 0.3), Progress (Some 0.4),
           Progress (Some 0.5), Progress (Some 0.6), Progress (Some 0.7), Progress (Some 0.8),
           Progress (Some 0.9), Progress (Some 1),
           Done (raster_rows img p [0..<h_proj p] (replicate (w_proj p * h_proj p * 4) 0))]"
    if h: "h_proj p = 600"
  proof -
    have "map (\<lambda>i. Progress (js_div (real (chunk_end (h_proj p) (h_proj p div 10) i)) (real (h_proj p))))
         [0..<10] = map Progress (map (\<lambda>i. js_div (real (chunk_end 600 (600 div 10) i)) (real 600)) [0..<10])"
      by (simp only: h map_map comp_def)
    then show ?thesis
      by (simp only: onmessage_eq [of img p] progress_600 list.map append.simps)
  qed
  then show ?thesis
    using chunks_cover [of "h_proj p"] chunk_heights [of "h_proj p"] onmessage_eq [of img p]
    by blast
qed

theorem raster_chunks_and_progress_witness:
  "h_proj scenario_params = 600
   \<and> onmessage red_image scenario_params =
          [Progress (Some 0.1), Progress (Some 0.2), Progress (Some 0.3), Progress (Some 0.4),
           Progress (Some 0.5), Progress (Some 0.6), Progress (Some 0.7), Progress (Some 0.8),
           Progress (Some 0.9), Progress (Some 1),
           Done (raster_rows red_image scenario_params [0..<h_proj scenario_params]
                  (replicate (w_proj scenario_params * h_proj scenario_params * 4) 0))]"
proof -
  have h: "h_proj scenario_params = 600" by (simp add: scenario_params_def)
  with raster_chunks_and_progress [of scenario_params red_image] show ?thesis by blast
qed

text \<open>
  C6 (as stated). With an output of 5 rows the first nine chunks are empty: the progress
  values are nine times 0 and then 1, so they are not strictly increasing and 0 is not in
  \<open>(0, 1]\<close>.
\<close>
theorem progress_small_height_not_strict:
  "progress_values (onmessage img0 small_params)
     = [Some 0, Some 0, Some 0, Some 0, Some 0, Some 0, Some 0, Some 0, Some 0, Some 1]
   \<and> \<not> distinct (progress_values (onmessage img0 small_params))"
  by (simp add: progress_values_onmessage small_params_def upt_10 chunk_end_def js_div_def)

lemma sorted_wrt_map_upt:
  assumes "\<And>i j. i < j \<Longrightarrow> j < n \<Longrightarrow> R (f i) (f j)"
  shows "sorted_wrt R (map f [0..<n])"
  using assms by (simp add: sorted_wrt_iff_nth_less)

text \<open>
  C6 (amended). For every output height of at least 1 the handler posts ten progress
  messages and then the single \<^verbatim>\<open>done\<close> message; the progress values are non-decreasing,
  lie in \<open>[0, 1]\<close> and end with 1. For every output height of at least 10 they are strictly
  increasing and lie in \<open>(0, 1]\<close>.
\<close>
theorem progress_monotone:
  assumes "1 \<le> h_proj p"
  shows "\<exists>vs buf. onmessage img p = map (\<lambda>v. Progress (Some v)) vs @ [Done buf]
           \<and> length vs = 10 \<and> sorted vs \<and> (\<forall>v\<in>set vs. 0 \<le> v \<and> v \<le> 1) \<and> last vs = 1
           \<and> (10 \<le> h_proj p \<longrightarrow> sorted_wrt (<) vs \<and> (\<forall>v\<in>set vs. 0 < v \<and> v \<le> 1))"
proof -
  define hp where "hp = h_proj p"
  define f where "f = (\<lambda>i. real (chunk_end hp (hp div 10) i) / real hp)"
  define vs where "vs = map f [0..<10]"
  have hp: "0 < real hp" using assms by (simp add: hp_def)
  have "js_div (real (chunk_end hp (hp div 10) i)) (real hp) = Some (f i)" for i
    using hp by (simp add: js_div_def f_def)
  then have msgs: "onmessage img p = map (\<lambda>v. Progress (Some v)) vs
      @ [Done (raster_rows img p [0..<h_proj p] (replicate (w_proj p * h_proj p * 4) 0))]"
    by (simp add: onmessage_eq [of img p] vs_def hp_def [symmetric] comp_def)
  have len: "length vs = 10" by (simp add: vs_def)
  have mono: "f i \<le> f j" if "i < j" "j < 10" for i j
    using chunk_end_mono [of i j hp] that hp by (simp add: f_def divide_right_mono)
  have sorted: "sorted vs"
    unfolding vs_def by (rule sorted_wrt_map_upt) (rule mono)
  have range: "0 \<le> f i \<and> f i \<le> 1" if "i < 10" for i
    using chunk_end_le [OF that, of hp] hp by (simp add: f_def)
  have bounds: "\<forall>v\<in>set vs. 0 \<le> v \<and> v \<le> 1"
    using range by (auto simp: vs_def)
  have "last vs = f 9" by (simp add: vs_def upt_10_split)
  then have last: "last vs = 1" using hp by (simp add: f_def chunk_end_last)
  have strict: "sorted_wrt (<) vs \<and> (\<forall>v\<in>set vs. 0 < v \<and> v \<le> 1)" if big: "10 \<le> hp"
  proof
    have "f i < f j" if "i < j" "j < 10" for i j
      using chunk_end_strict [OF big that] hp by (simp add: f_def divide_strict_right_mono)
    then show "sorted_wrt (<) vs"
      unfolding vs_def by (intro sorted_wrt_map_upt)
    have "0 < f i" for i
      using chunk_end_pos [OF big, of i] hp by (simp add: f_def)
    then show "\<forall>v\<in>set vs. 0 < v \<and> v \<le> 1"
      using range by (auto simp: vs_def)
  qed
  from msgs len sorted bounds last strict show ?thesis
    unfolding hp_def by blast
qed

theorem progress_monotone_witness:
  "1 \<le> h_proj p0 \<and> 10 \<le> h_proj p0
   \<and> (\<exists>vs buf. onmessage img0 p0 = map (\<lambda>v. Progress (Some v)) vs @ [Done buf]
           \<and> length vs = 10 \<and> sorted vs \<and> last vs = 1 \<and> sorted_wrt (<) vs)"
proof -
  have h: "1 \<le> h_proj p0" "10 \<le> h_proj p0" by (simp_all add: p0_def)
  from progress_monotone [OF h(1), of img0] h show ?thesis by blast
qed

section \<open>A source image of one colour\<close>

lemma length_concat_replicate4: "length (concat (replicate n [a, b, c, d])) = n * 4"
  by (induction n) simp_all

lemma nth_concat_replicate4:
  "j < n * 4 \<Longrightarrow> concat (replicate n [a, b, c, d]) ! j = [a, b, c, d] ! (j mod 4)"
proof (induction n arbitrary: j)
  case 0
  then show ?case by simp
next
  case (Suc n)
  have unfold: "concat (replicate (Suc n) [a, b, c, d])
      = [a, b, c, d] @ concat (replicate n [a, b, c, d])"
    by simp
  show ?case
  proof (cases "j < 4")
    case True
    then have "([a, b, c, d] @ concat (replicate n [a, b, c, d])) ! j = [a, b, c, d] ! j"
      by (intro nth_append_left) simp
    then show ?thesis using True by (simp only: unfold mod_less)
  next
    case False
    then have small: "j - 4 < n * 4" using Suc.prems by simp
    have "concat (replicate (Suc n) [a, b, c, d]) ! j
        = ([a, b, c, d] @ concat (replicate n [a, b, c, d])) ! j"
      by (simp only: unfold)
    also have "\<dots> = concat (replicate n [a, b, c, d]) ! (j - length [a, b, c, d])"
      using False by (intro nth_append_right) simp
    also have "\<dots> = concat (replicate n [a, b, c, d]) ! (j - 4)"
      by (simp add: numeral_eq_Suc)
    also have "\<dots> = [a, b, c, d] ! ((j - 4) mod 4)"
      using small by (rule Suc.IH)
    also have "(j - 4) mod 4 = j mod 4"
      using False by (simp add: le_mod_geq)
    finally show ?thesis .
  qed
qed

lemma update4_nth:
  assumes "j < length res"
  shows "res[i := a, i + 1 := b, i + 2 := c, i + 3 := d] ! j =
    (if j = i then a else if j = i + 1 then b else if j = i + 2 then c
     else if j = i + 3 then d else res ! j)"
  using assms by (simp add: nth_list_update)

lemma update4_other:
  assumes "j div 4 \<noteq> q"
  shows "res[q * 4 := a, q * 4 + 1 := b, q * 4 + 2 := c, q * 4 + 3 := d] ! j = res ! j"
proof -
  have "j \<noteq> q * 4" "j \<noteq> q * 4 + 1" "j \<noteq> q * 4 + 2" "j \<noteq> q * 4 + 3"
    using assms by auto
  then show ?thesis by (simp only: nth_list_update_neq not_sym)
qed

lemma update4_pattern_set:
  assumes "j < length res" and "j div 4 = q"
  shows "res[q * 4 := a, q * 4 + 1 := b, q * 4 + 2 := c, q * 4 + 3 := d] ! j
    = [a, b, c, d] ! (j mod 4)"
proof -
  have j: "j = q * 4 + j mod 4" using assms(2) by (metis div_mult_mod_eq)
  have "j mod 4 < 4" by simp
  then consider "j mod 4 = 0" | "j mod 4 = 1" | "j mod 4 = 2" | "j mod 4 = 3" by linarith
  then show ?thesis
  proof cases
    case 1
    then have "j = q * 4" using j by simp
    then show ?thesis using assms(1) 1 by (simp add: update4_nth)
  next
    case 2
    then have "j = q * 4 + 1" using j by simp
    then show ?thesis using assms(1) 2 by (simp add: update4_nth)
  next
    case 3
    then have "j = q * 4 + 2" using j by simp
    then show ?thesis using assms(1) 3 by (simp add: update4_nth)
  next
    case 4
    then have "j = q * 4 + 3" using j by simp
    then show ?thesis using assms(1) 4 by (simp add: update4_nth)
  qed
qed

lemma pixel_offset_bound:
  assumes "a < h" and "b < w" and "k < 4"
  shows "(a * w + b) * 4 + k < w * h * (4::nat)"
proof -
  have "a * w + b < a * w + w" using assms(2) by simp
  also have "\<dots> = (a + 1) * w" by simp
  also have "\<dots> \<le> h * w" using assms(1) by (intro mult_le_mono1) simp
  finally have "a * w + b < w * h" by (simp add: mult.commute)
  then show ?thesis using assms(3) by simp
qed

lemma solid_read:
  assumes "0 \<le> a" and "a < int (height img)" and "0 \<le> b" and "b < int (width img)"
    and "data img = concat (replicate (width img * height img) [c0, c1, c2, c3])"
    and "k < 4"
  shows "typed_get (data img) (map_option (\<lambda>i. i + int k) (img_index img (Some a, Some b)))
    = Some ([c0, c1, c2, c3] ! k)"
proof -
  have len: "length (data img) = width img * height img * 4"
    by (simp only: assms(5) length_concat_replicate4)
  have "nat a < height img" "nat b < width img" using assms(1-4) by simp_all
  then have "(nat a * width img + nat b) * 4 + k < width img * height img * 4"
    using assms(6) by (rule pixel_offset_bound)
  then have "data img ! ((nat a * width img + nat b) * 4 + k)
      = [c0, c1, c2, c3] ! (((nat a * width img + nat b) * 4 + k) mod 4)"
    by (simp only: assms(5) nth_concat_replicate4)
  also have "((nat a * width img + nat b) * 4 + k) mod 4 = k"
    using assms(6) mod_mult_self3 [of "nat a * width img + nat b" 4 k] by (simp only: mod_less)
  finally show ?thesis
    by (simp only: img_index_readable [OF assms(1-4) len assms(6)])
qed

lemma copy_pixel_solid:
  assumes "0 < scale p" and "0 < w_proj p" and "0 < h_proj p"
    and "0 < width img" and "0 < height img"
    and "data img = concat (replicate (width img * height img) [c0, c1, c2, c3])"
  shows "copy_pixel img p (radius p) (rot_mat p) y x res =
    res[(y * w_proj p + x) * 4 := c0, (y * w_proj p + x) * 4 + 1 := c1,
        (y * w_proj p + x) * 4 + 2 := c2, (y * w_proj p + x) * 4 + 3 := c3]"
proof -
  have r: "0 < radius p" using assms(1-3) by (rule radius_pos)
  obtain a b where pr: "projection (y, x) (radius p) (height img) (width img) (h_proj p) (w_proj p)
                 (offset_hor p) (offset_ver p) (rot_mat p) = (Some a, Some b)"
      and ab: "0 \<le> a" "a < int (height img)" "0 \<le> b" "b < int (width img)"
    using projection_in_bounds [OF r assms(5,4)] by blast
  have rd: "typed_get (data img) (map_option (\<lambda>i. i + int k) (img_index img (Some a, Some b)))
      = Some ([c0, c1, c2, c3] ! k)" if "k < 4" for k
    using ab assms(6) that by (rule solid_read)
  have r0: "typed_get (data img) (img_index img (Some a, Some b)) = Some c0"
    using rd [of 0] by (simp add: option.map_ident)
  have r1: "typed_get (data img) (map_option (\<lambda>i. i + 1) (img_index img (Some a, Some b))) = Some c1"
    using rd [of 1] by simp
  have r2: "typed_get (data img) (map_option (\<lambda>i. i + 2) (img_index img (Some a, Some b))) = Some c2"
    using rd [of 2] by simp
  have r3: "typed_get (data img) (map_option (\<lambda>i. i + 3) (img_index img (Some a, Some b))) = Some c3"
    using rd [of 3] by simp
  show ?thesis
    by (simp only: copy_pixel_def Let_def pr r0 r1 r2 r3 typed_set_def option.case)
qed

lemma raster_rows_solid:
  assumes "0 < scale p" and "0 < w_proj p" and "0 < h_proj p"
    and "0 < width img" and "0 < height img"
    and "data img = concat (replicate (width img * height img) [c0, c1, c2, c3])"
  shows "raster_rows img p [0..<h_proj p] (replicate (w_proj p * h_proj p * 4) 0)
    = concat (replicate (w_proj p * h_proj p) [c0, c1, c2, c3])"
proof (rule nth_equalityI)
  define N where "N = w_proj p * h_proj p * 4"
  define step where "step = copy_pixel img p (radius p) (rot_mat p)"
  define rowstep where "rowstep = (\<lambda>y. fold (step y) [0..<w_proj p])"
  have step: "step y x b = b[(y * w_proj p + x) * 4 := c0, (y * w_proj p + x) * 4 + 1 := c1,
        (y * w_proj p + x) * 4 + 2 := c2, (y * w_proj p + x) * 4 + 3 := c3]" for y x b
    unfolding step_def using assms by (rule copy_pixel_solid)
  have step_len: "length (step y x b) = N" if "length b = N" for y x b
    using that by (simp add: step)
  have row_len: "length (rowstep y b) = N" if "length b = N" for y b
    unfolding rowstep_def using step_len that
    by (intro fold_invariant [where I = "\<lambda>b. length b = N"]) simp_all
  have rows: "raster_rows img p ys b = fold rowstep ys b" for ys b
    by (simp only: raster_rows_def rowstep_def step_def)
  have len: "length (raster_rows img p [0..<h_proj p] (replicate N 0)) = N"
    unfolding rows using row_len
    by (intro fold_invariant [where I = "\<lambda>b. length b = N"]) simp_all
  then show "length (raster_rows img p [0..<h_proj p] (replicate (w_proj p * h_proj p * 4) 0))
      = length (concat (replicate (w_proj p * h_proj p) [c0, c1, c2, c3]))"
    by (simp only: N_def length_concat_replicate4)
  fix j
  assume "j < length (raster_rows img p [0..<h_proj p] (replicate (w_proj p * h_proj p * 4) 0))"
  then have j: "j < N" using len by (simp only: N_def)
  define P where "P = (\<lambda>b::8 word list. b ! j = [c0, c1, c2, c3] ! (j mod 4))"
  have step_keeps: "P (step y x b)" if "length b = N" "P b" for y x b
  proof (cases "j div 4 = y * w_proj p + x")
    case True
    then show ?thesis
      using j that(1) unfolding P_def step by (intro update4_pattern_set) simp_all
  next
    case False
    have "step y x b ! j = b ! j"
      unfolding step by (rule update4_other [OF False])
    then show ?thesis
      using that(2) by (simp only: P_def)
  qed
  have step_sets: "P (step y x b)" if "length b = N" "j div 4 = y * w_proj p + x" for y x b
    using j that unfolding P_def step by (intro update4_pattern_set) simp_all
  have row_keeps: "P (rowstep y b)" if "length b = N" "P b" for y b
  proof -
    have "length (fold (step y) [0..<w_proj p] b) = N \<and> P (fold (step y) [0..<w_proj p] b)"
      using that step_len step_keeps
      by (intro fold_invariant [where I = "\<lambda>b. length b = N \<and> P b"]) simp_all
    then show ?thesis by (simp only: rowstep_def)
  qed
  define y0 where "y0 = j div 4 div w_proj p"
  define x0 where "x0 = j div 4 mod w_proj p"
  have q: "j div 4 = y0 * w_proj p + x0"
    by (simp add: y0_def x0_def)
  have x0: "x0 \<in> set [0..<w_proj p]"
    using assms(2) by (simp add: x0_def)
  have "j div 4 < h_proj p * w_proj p"
    using j by (simp add: N_def mult.commute)
  then have "y0 < h_proj p"
    unfolding y0_def by (simp add: less_mult_imp_div_less)
  then have y0: "y0 \<in> set [0..<h_proj p]" by simp
  have row_sets: "P (rowstep y0 b)" if b: "length b = N" for b
    unfolding rowstep_def
  proof (rule fold_establish [where I = "\<lambda>b. length b = N" and ?i0.0 = x0])
    show "length (step y0 i c) = N" if "length c = N" for i c
      using that by (rule step_len)
    show "P (step y0 i c)" if "length c = N" "P c" for i c
      using that by (rule step_keeps)
    show "P (step y0 x0 c)" if "length c = N" for c
      using that q by (rule step_sets)
    show "length b = N" by (rule b)
    show "x0 \<in> set [0..<w_proj p]" by (rule x0)
  qed
  have "P (fold rowstep [0..<h_proj p] (replicate N 0))"
  proof (rule fold_establish [where I = "\<lambda>b. length b = N" and ?i0.0 = y0])
    show "length (rowstep i c) = N" if "length c = N" for i c
      using that by (rule row_len)
    show "P (rowstep i c)" if "length c = N" "P c" for i c
      using that by (rule row_keeps)
    show "P (rowstep y0 c)" if "length c = N" for c
      using that by (rule row_sets)
    show "length (replicate N (0::8 word)) = N" by simp
    show "y0 \<in> set [0..<h_proj p]" by (rule y0)
  qed
  then have "raster_rows img p [0..<h_proj p] (replicate N 0) ! j = [c0, c1, c2, c3] ! (j mod 4)"
    by (simp only: rows P_def)
  moreover have "concat (replicate (w_proj p * h_proj p) [c0, c1, c2, c3]) ! j
      = [c0, c1, c2, c3] ! (j mod 4)"
    using j unfolding N_def by (rule nth_concat_replicate4)
  ultimately show "raster_rows img p [0..<h_proj p] (replicate (w_proj p * h_proj p * 4) 0) ! j
      = concat (replicate (w_proj p * h_proj p) [c0, c1, c2, c3]) ! j"
    by (simp only: N_def)
qed

text \<open>
  C4. With an output of 800 by 600, scale 1, angles 0, offsets 0.5 and the source image of
  400 by 200 pixels that are all \<open>(255, 0, 0, 255)\<close>, the handler posts the ten progress
  messages and then \<^verbatim>\<open>done\<close> with a buffer of 800 \<open>\<cdot>\<close> 600 pixels, each \<open>(255, 0, 0, 255)\<close>.
\<close>
theorem solid_red_scenario:
  "onmessage red_image scenario_params =
     [Progress (Some 0.1), Progress (Some 0.2), Progress (Some 0.3), Progress (Some 0.4),
      Progress (Some 0.5), Progress (Some 0.6), Progress (Some 0.7), Progress (Some 0.8),
      Progress (Some 0.9), Progress (Some 1),
      Done (concat (replicate (800 * 600) [255, 0, 0, 255]))]"
proof -
  have w: "w_proj scenario_params = 800" and h: "h_proj scenario_params = 600"
    and s: "0 < scale scenario_params"
    by (simp_all add: scenario_params_def)
  have iw: "width red_image = 400" and ih: "height red_image = 200"
    and d: "data red_image = concat (replicate (400 * 200) [255, 0, 0, 255])"
    by (simp_all only: red_image_def imageData.simps)
  have d': "data red_image
      = concat (replicate (width red_image * height red_image) [255, 0, 0, 255])"
    by (simp only: iw ih d)
  have "raster_rows red_image scenario_params [0..<h_proj scenario_params]
          (replicate (w_proj scenario_params * h_proj scenario_params * 4) 0)
      = concat (replicate (w_proj scenario_params * h_proj scenario_params) [255, 0, 0, 255])"
    using s d' by (intro raster_rows_solid) (simp_all add: w h iw ih)
  then have buf: "raster_rows red_image scenario_params [0..<h_proj scenario_params]
          (replicate (w_proj scenario_params * h_proj scenario_params * 4) 0)
      = concat (replicate (800 * 600) [255, 0, 0, 255])"
    by (simp only: w h)
  have "map (\<lambda>i. Progress (js_div (real (chunk_end (h_proj scenario_params)
              (h_proj scenario_params div 10) i)) (real (h_proj scenario_params)))) [0..<10]
      = map Progress (map (\<lambda>i. js_div (real (chunk_end 600 (600 div 10) i)) (real 600)) [0..<10])"
    by (simp only: h map_map comp_def)
  then show ?thesis
    by (simp only: onmessage_eq [of red_image scenario_params] buf progress_600 list.map
        append.simps)
qed

section \<open>Supersampling\<close>

lemma fold_vec4_add_const:
  "fold (\<lambda>j color. vec4_add color (c0, c1, c2, c3)) xs (a0, a1, a2, a3)
    = (a0 + real (length xs) * c0, a1 + real (length xs) * c1,
       a2 + real (length xs) * c2, a3 + real (length xs) * c3)"
  by (induction xs arbitrary: a0 a1 a2 a3) (simp_all add: vec4_add_def algebra_simps)

text \<open>
  C9. When every texture lookup returns the same colour \<open>c\<close>, \<^verbatim>\<open>sampleTexture\<close> returns \<open>c\<close>
  for every coordinate and every resolution: the 64 samples add up to \<open>64 \<cdot> c\<close>, which is
  divided by 64.
\<close>
theorem sampleTexture_uniform:
  "sampleTexture (u\<lparr>uSampler := \<lambda>_. c\<rparr>) coord = c"
proof -
  obtain c0 c1 c2 c3 where c: "c = (c0, c1, c2, c3)" by (cases c)
  have inner: "fold (\<lambda>j color. vec4_add color (c0, c1, c2, c3)) [0..<SAMPLES] a
      = vec4_add a (8 * c0, 8 * c1, 8 * c2, 8 * c3)" for a
  proof (cases a)
    case (fields a0 a1 a2 a3)
    have "length [0..<SAMPLES] = 8" by (simp add: SAMPLES_def)
    then show ?thesis
      by (simp only: fields fold_vec4_add_const) (simp add: vec4_add_def)
  qed
  have inner_fun: "fold (\<lambda>j color. vec4_add color (c0, c1, c2, c3)) [0..<SAMPLES]
      = (\<lambda>color. vec4_add color (8 * c0, 8 * c1, 8 * c2, 8 * c3))"
    by (rule ext) (rule inner)
  have "fold (\<lambda>i. fold (\<lambda>j color. vec4_add color (c0, c1, c2, c3)) [0..<SAMPLES])
          [0..<SAMPLES] (0, 0, 0, 0)
      = fold (\<lambda>i color. vec4_add color (8 * c0, 8 * c1, 8 * c2, 8 * c3)) [0..<SAMPLES] (0, 0, 0, 0)"
    by (simp only: inner_fun)
  also have "\<dots> = (64 * c0, 64 * c1, 64 * c2, 64 * c3)"
    by (simp only: fold_vec4_add_const) (simp add: SAMPLES_def)
  finally have "fold (\<lambda>i. fold (\<lambda>j color. vec4_add color (c0, c1, c2, c3)) [0..<SAMPLES])
          [0..<SAMPLES] (0, 0, 0, 0) = (64 * c0, 64 * c1, 64 * c2, 64 * c3)" .
  moreover have "vec4_div (64 * c0, 64 * c1, 64 * c2, 64 * c3) (real (SAMPLES * SAMPLES)) = c"
    by (simp add: vec4_div_def SAMPLES_def c)
  ultimately show ?thesis
    by (simp add: sampleTexture_def c)
qed

section \<open>The shader's constant \<open>PI\<close> is above \<open>pi\<close>\<close>

lemma cos_upper:
  fixes x :: real
  assumes "0 \<le> x"
  shows "cos x \<le> (\<Sum>m<n. cos_coeff m * x ^ m) + x ^ n / fact n"
proof -
  obtain t where "cos x = (\<Sum>m<n. cos_coeff m * x ^ m) + cos (t + 1 / 2 * real n * pi) / fact n * x ^ n"
    using Maclaurin_cos_expansion [of x n] by blast
  moreover have "cos (t + 1 / 2 * real n * pi) / fact n * x ^ n \<le> 1 / fact n * x ^ n"
    using assms by (intro mult_right_mono divide_right_mono) simp_all
  ultimately show ?thesis by simp
qed

lemma cos_series_20:
  fixes x :: real
  shows "(\<Sum>m<20. cos_coeff m * x ^ m) + x ^ 20 / fact 20 =
     1 - x\<^sup>2 / 2 + (x\<^sup>2)^2 / 24 - (x\<^sup>2)^3 / 720 + (x\<^sup>2)^4 / 40320 - (x\<^sup>2)^5 / 3628800
       + (x\<^sup>2)^6 / 479001600 - (x\<^sup>2)^7 / 87178291200 + (x\<^sup>2)^8 / 20922789888000
       - (x\<^sup>2)^9 / 6402373705728000 + (x\<^sup>2)^10 / 2432902008176640000"
  by (simp add: lessThan_nat_numeral cos_coeff_def fact_numeral flip: power_mult)

lemma cos_poly_scaled:
  fixes q :: real
  shows "2432902008176640000 *
     (1 - q / 2 + q^2 / 24 - q^3 / 720 + q^4 / 40320 - q^5 / 3628800
       + q^6 / 479001600 - q^7 / 87178291200 + q^8 / 20922789888000
       - q^9 / 6402373705728000 + q^10 / 2432902008176640000)
   = 2432902008176640000 - 1216451004088320000 * q + 101370917007360000 * q^2
     - 3379030566912000 * q^3 + 60339831552000 * q^4 - 670442572800 * q^5 + 5079110400 * q^6
     - 27907200 * q^7 + 116280 * q^8 - 380 * q^9 + q^10"
  by (simp add: algebra_simps)

lemma horner_scaled:
  fixes q d :: real
  shows "((((((((((q * d) - 380 * d) * (q * d) + 116280 * d ^ 2) * (q * d) - 27907200 * d ^ 3) * (q * d)
      + 5079110400 * d ^ 4) * (q * d) - 670442572800 * d ^ 5) * (q * d) + 60339831552000 * d ^ 6) * (q * d)
      - 3379030566912000 * d ^ 7) * (q * d) + 101370917007360000 * d ^ 8) * (q * d)
      - 1216451004088320000 * d ^ 9) * (q * d) + 2432902008176640000 * d ^ 10
   = d ^ 10 * (2432902008176640000 - 1216451004088320000 * q + 101370917007360000 * q^2
     - 3379030566912000 * q^3 + 60339831552000 * q^4 - 670442572800 * q^5 + 5079110400 * q^6
     - 27907200 * q^7 + 116280 * q^8 - 380 * q^9 + q^10)"
  by algebra


lemma horner_numeric:
  "(((((((((27633741218862\<^sup>2 - 380 * 2 ^ 88) * 27633741218862\<^sup>2
      + 116280 * (2 ^ 88) ^ 2) * 27633741218862\<^sup>2
      - 27907200 * (2 ^ 88) ^ 3) * 27633741218862\<^sup>2
      + 5079110400 * (2 ^ 88) ^ 4) * 27633741218862\<^sup>2
      - 670442572800 * (2 ^ 88) ^ 5) * 27633741218862\<^sup>2
      + 60339831552000 * (2 ^ 88) ^ 6) * 27633741218862\<^sup>2
      - 3379030566912000 * (2 ^ 88) ^ 7) * 27633741218862\<^sup>2
      + 101370917007360000 * (2 ^ 88) ^ 8) * 27633741218862\<^sup>2
      - 1216451004088320000 * (2 ^ 88) ^ 9) * 27633741218862\<^sup>2
      + 2432902008176640000 * (2 ^ 88) ^ 10 < (0::real)"
  by simp

lemma pi_less_PI: "pi < PI"
proof -
  define n :: real where "n = 27633741218862\<^sup>2"
  define d :: real where "d = 2 ^ 88"
  define x :: real where "x = 27633741218862 / 2 ^ 44"
  define q :: real where "q = x\<^sup>2"
  have d: "0 < d" by (simp add: d_def)
  have x: "0 < x" by (simp add: x_def)
  have "q = n / d"
    by (simp only: q_def x_def n_def d_def power_divide) (simp flip: power_mult)
  then have qd: "q * d = n" using d by simp
  have "d ^ 10 * (2432902008176640000 *
     (1 - q / 2 + q^2 / 24 - q^3 / 720 + q^4 / 40320 - q^5 / 3628800
       + q^6 / 479001600 - q^7 / 87178291200 + q^8 / 20922789888000
       - q^9 / 6402373705728000 + q^10 / 2432902008176640000)) < 0"
    using horner_numeric
    by (simp only: cos_poly_scaled horner_scaled [symmetric] qd power_one_right)
       (simp only: n_def d_def)
  then have "1 - q / 2 + q^2 / 24 - q^3 / 720 + q^4 / 40320 - q^5 / 3628800
       + q^6 / 479001600 - q^7 / 87178291200 + q^8 / 20922789888000
       - q^9 / 6402373705728000 + q^10 / 2432902008176640000 < 0"
    using d by (simp only: mult_less_0_iff) (simp add: not_less_iff_gr_or_eq)
  moreover have "cos x \<le> (\<Sum>m<20. cos_coeff m * x ^ m) + x ^ 20 / fact 20"
    using x by (intro cos_upper) simp
  ultimately have neg: "cos x < 0"
    by (simp only: cos_series_20 q_def)
  have "\<not> x < pi / 2"
    using cos_gt_zero [OF x] neg by fastforce
  moreover have "x \<noteq> pi / 2"
  proof
    assume "x = pi / 2"
    then have "cos x = cos (pi / 2)" by (rule arg_cong)
    then have "cos x = 0" by (simp only: cos_pi_half)
    with neg show False by simp
  qed
  ultimately have "pi / 2 < x" by simp
  moreover have "x \<le> PI / 2" by (simp add: x_def PI_def)
  ultimately show ?thesis by simp
qed

section \<open>The texture coordinate of the fragment shader\<close>

lemma TWO_PI_eq: "TWO_PI = 2 * PI"
  by (simp add: TWO_PI_def PI_def)

lemma PI_pos: "0 < PI"
  by (simp add: PI_def)

lemma fs_col_bounds:
  "0 < js_atan2 py px / TWO_PI + 0.5 \<and> js_atan2 py px / TWO_PI + 0.5 < 1"
proof -
  have T: "0 < TWO_PI" using PI_pos by (simp add: TWO_PI_eq)
  have b: "- pi \<le> js_atan2 py px" "js_atan2 py px \<le> pi"
    using js_atan2_bounds [of py px] by simp_all
  have "- (1 / 2) * TWO_PI < js_atan2 py px"
    using b(1) pi_less_PI unfolding TWO_PI_eq by linarith
  then have lo: "- (1 / 2) < js_atan2 py px / TWO_PI"
    by (simp only: pos_less_divide_eq [OF T])
  have "js_atan2 py px < 1 / 2 * TWO_PI"
    using b(2) pi_less_PI unfolding TWO_PI_eq by linarith
  then have hi: "js_atan2 py px / TWO_PI < 1 / 2"
    by (simp only: pos_divide_less_eq [OF T])
  from lo hi show ?thesis by linarith
qed

lemma fs_row_bounds:
  assumes "0 < r"
  shows "0 \<le> arccos (glsl_clamp pz (- r) r / r) / PI \<and> arccos (glsl_clamp pz (- r) r / r) / PI < 1"
proof -
  have "- r \<le> glsl_clamp pz (- r) r" "glsl_clamp pz (- r) r \<le> r"
    using assms by (simp_all add: glsl_clamp_def)
  then have "- 1 \<le> glsl_clamp pz (- r) r / r" "glsl_clamp pz (- r) r / r \<le> 1"
    using assms by (simp_all add: pos_le_divide_eq pos_divide_le_eq)
  then have "0 \<le> arccos (glsl_clamp pz (- r) r / r)" "arccos (glsl_clamp pz (- r) r / r) \<le> pi"
    by (simp_all add: arccos_lbound arccos_ubound)
  then have "0 \<le> arccos (glsl_clamp pz (- r) r / r)" "arccos (glsl_clamp pz (- r) r / r) < PI"
    using pi_less_PI by linarith+
  then show ?thesis
    using PI_pos by (simp add: pos_divide_less_eq)
qed

lemma getPixOnImg_fs_range:
  assumes "0 < uRadius u"
  shows "0 < fst (getPixOnImg_fs u point) \<and> fst (getPixOnImg_fs u point) < 1
       \<and> 0 \<le> snd (getPixOnImg_fs u point) \<and> snd (getPixOnImg_fs u point) < 1"
proof -
  obtain px py pz where point: "point = (px, py, pz)" by (cases point)
  have "getPixOnImg_fs u point =
      (js_atan2 py px / TWO_PI + 0.5, arccos (glsl_clamp pz (- uRadius u) (uRadius u) / uRadius u) / PI)"
    by (simp only: getPixOnImg_fs_def point prod.case Let_def)
  then show ?thesis
    using fs_col_bounds [of py px] fs_row_bounds [OF assms, of pz] by (simp only: fst_conv snd_conv)
qed

lemma getPixOnImg_fs_col_range:
  "0 < fst (getPixOnImg_fs u point) \<and> fst (getPixOnImg_fs u point) < 1"
proof -
  obtain px py pz where point: "point = (px, py, pz)" by (cases point)
  have "fst (getPixOnImg_fs u point) = js_atan2 py px / TWO_PI + 0.5"
    by (simp only: getPixOnImg_fs_def point prod.case Let_def fst_conv)
  then show ?thesis
    using fs_col_bounds [of py px] by (simp only:)
qed

section \<open>Discarding\<close>

lemma imgCoord_is_getPixOnImg_fs:
  "\<exists>point. imgCoord u tc = getPixOnImg_fs u point"
  by (simp only: imgCoord_def Let_def) blast

lemma main_fs_keeps:
  assumes "0 < uRadius u"
  shows "main_fs u tc = FragColor (sampleTexture u (imgCoord u tc))"
proof -
  obtain point where "imgCoord u tc = getPixOnImg_fs u point"
    using imgCoord_is_getPixOnImg_fs by blast
  then have "0 < fst (imgCoord u tc) \<and> fst (imgCoord u tc) < 1
       \<and> 0 \<le> snd (imgCoord u tc) \<and> snd (imgCoord u tc) < 1"
    using getPixOnImg_fs_range [OF assms, of point] by simp
  then show ?thesis
    by (simp add: main_fs_def Let_def)
qed

text \<open>
  C10. For every positive radius and every point the shader's \<^verbatim>\<open>getPixOnImg\<close> returns a
  column and a row in \<open>[0, 1]\<close>; so \<^verbatim>\<open>main\<close> never takes the \<^verbatim>\<open>discard\<close> branch: every
  fragment gets the colour of \<^verbatim>\<open>sampleTexture\<close> at its coordinate. Real numbers, with the
  shader's decimal constants \<open>PI\<close> and \<open>TWO_PI\<close>.
\<close>
theorem fragment_never_discards:
  assumes "0 < uRadius u"
  shows "0 \<le> fst (getPixOnImg_fs u point) \<and> fst (getPixOnImg_fs u point) \<le> 1
       \<and> 0 \<le> snd (getPixOnImg_fs u point) \<and> snd (getPixOnImg_fs u point) \<le> 1
       \<and> main_fs u vTextureCoord = FragColor (sampleTexture u (imgCoord u vTextureCoord))
       \<and> main_fs u vTextureCoord \<noteq> Discard"
  using getPixOnImg_fs_range [OF assms, of point] main_fs_keeps [OF assms, of vTextureCoord]
  by simp

theorem fragment_never_discards_witness:
  "0 < uRadius (render_uniforms (\<lambda>_. (1, 0, 0, 1)) p0)
   \<and> 0 \<le> fst (getPixOnImg_fs (render_uniforms (\<lambda>_. (1, 0, 0, 1)) p0) (0, 0, - 1))
   \<and> fst (getPixOnImg_fs (render_uniforms (\<lambda>_. (1, 0, 0, 1)) p0) (0, 0, - 1)) \<le> 1
   \<and> 0 \<le> snd (getPixOnImg_fs (render_uniforms (\<lambda>_. (1, 0, 0, 1)) p0) (0, 0, - 1))
   \<and> snd (getPixOnImg_fs (render_uniforms (\<lambda>_. (1, 0, 0, 1)) p0) (0, 0, - 1)) \<le> 1
   \<and> main_fs (render_uniforms (\<lambda>_. (1, 0, 0, 1)) p0) (0.5, 0.5) \<noteq> Discard"
proof -
  have "0 < uRadius (render_uniforms (\<lambda>_. (1, 0, 0, 1)) p0)"
    by (simp add: render_uniforms_def p0_def)
  from this fragment_never_discards [OF this, of "(0, 0, - 1)" "(0.5, 0.5)"]
  show ?thesis by blast
qed

text \<open>
  C7 (as stated). No uniforms and no fragment give the mapped coordinate \<open>(1.5, 0.5)\<close>: the
  first component, the column, is below 1. Read as (row, column) it is not reached either,
  for a positive radius.
\<close>
theorem no_fragment_maps_outside:
  "\<not> (\<exists>u tc. imgCoord u tc = (3 / 2, 1 / 2))
   \<and> \<not> (\<exists>u tc. 0 < uRadius u \<and> imgCoord u tc = (1 / 2, 3 / 2))"
proof
  show "\<not> (\<exists>u tc. imgCoord u tc = (3 / 2, 1 / 2))"
  proof
    assume "\<exists>u tc. imgCoord u tc = (3 / 2, 1 / 2)"
    then obtain u tc where c: "imgCoord u tc = (3 / 2, 1 / 2)" by blast
    obtain point where "imgCoord u tc = getPixOnImg_fs u point"
      using imgCoord_is_getPixOnImg_fs by blast
    then have "fst (imgCoord u tc) < 1"
      using getPixOnImg_fs_col_range [of u point] by simp
    then show False by (simp add: c)
  qed
  show "\<not> (\<exists>u tc. 0 < uRadius u \<and> imgCoord u tc = (1 / 2, 3 / 2))"
  proof
    assume "\<exists>u tc. 0 < uRadius u \<and> imgCoord u tc = (1 / 2, 3 / 2)"
    then obtain u tc where r: "0 < uRadius u" and c: "imgCoord u tc = (1 / 2, 3 / 2)" by blast
    obtain point where "imgCoord u tc = getPixOnImg_fs u point"
      using imgCoord_is_getPixOnImg_fs by blast
    then have "snd (imgCoord u tc) < 1"
      using getPixOnImg_fs_range [OF r, of point] by simp
    then show False by (simp add: c)
  qed
qed

lemma render_uniforms_radius:
  assumes "0 < scale p" and "0 < w_proj p" and "0 < h_proj p"
  shows "0 < uRadius (render_uniforms texture p)"
  using assms by (simp add: render_uniforms_def)

text \<open>
  C7 (amended). The fragment evaluator discards exactly the fragments whose mapped
  coordinate is outside \<open>[0, 1]\<close> on either axis. For parameters with a positive scale and
  positive output size the mapped coordinate of every fragment is inside \<open>[0, 1]\<close> on both
  axes, so it is never \<open>(1.5, 0.5)\<close> and no fragment is discarded. For the same parameters
  and a source of positive size the raster evaluator's \<^verbatim>\<open>getPixOnImg\<close> wraps every rotated
  point with \<open>- r \<le> z\<close> to a source pixel inside the source. (Nothing is said here of points
  with \<open>z < - r\<close>.)
\<close>
theorem discard_guard_and_raster_wrap:
  assumes "0 < scale p" and "0 < w_proj p" and "0 < h_proj p"
    and "0 < w_img" and "0 < h_img" and "- radius p \<le> z"
  shows "(main_fs u tc = Discard \<longleftrightarrow>
          (fst (imgCoord u tc) < 0 \<or> snd (imgCoord u tc) < 0)
          \<or> (1 < fst (imgCoord u tc) \<or> 1 < snd (imgCoord u tc)))
       \<and> 0 \<le> fst (imgCoord (render_uniforms texture p) tc)
       \<and> fst (imgCoord (render_uniforms texture p) tc) \<le> 1
       \<and> 0 \<le> snd (imgCoord (render_uniforms texture p) tc)
       \<and> snd (imgCoord (render_uniforms texture p) tc) \<le> 1
       \<and> imgCoord (render_uniforms texture p) tc \<noteq> (1.5, 0.5)
       \<and> main_fs (render_uniforms texture p) tc \<noteq> Discard
       \<and> (\<exists>a b. getPixOnImg (x, y, z) (radius p) h_img w_img = (Some a, Some b)
              \<and> 0 \<le> a \<and> a < int h_img \<and> 0 \<le> b \<and> b < int w_img)"
proof -
  let ?u = "render_uniforms texture p"
  have guard: "main_fs u tc = Discard \<longleftrightarrow>
          (fst (imgCoord u tc) < 0 \<or> snd (imgCoord u tc) < 0)
          \<or> (1 < fst (imgCoord u tc) \<or> 1 < snd (imgCoord u tc))"
    by (simp add: main_fs_def Let_def)
  have r: "0 < uRadius ?u"
    using assms(1-3) by (rule render_uniforms_radius)
  obtain point where "imgCoord ?u tc = getPixOnImg_fs ?u point"
    using imgCoord_is_getPixOnImg_fs by blast
  then have range: "0 < fst (imgCoord ?u tc) \<and> fst (imgCoord ?u tc) < 1
       \<and> 0 \<le> snd (imgCoord ?u tc) \<and> snd (imgCoord ?u tc) < 1"
    using getPixOnImg_fs_range [OF r, of point] by simp
  then have ne: "imgCoord ?u tc \<noteq> (1.5, 0.5)" by auto
  have keep: "main_fs ?u tc \<noteq> Discard"
    using main_fs_keeps [OF r, of tc] by simp
  have "0 < radius p" using assms(1-3) by (simp add: radius_def)
  then have raster: "\<exists>a b. getPixOnImg (x, y, z) (radius p) h_img w_img = (Some a, Some b)
              \<and> 0 \<le> a \<and> a < int h_img \<and> 0 \<le> b \<and> b < int w_img"
    using assms(6,5,4) by (rule getPixOnImg_in_bounds)
  from guard range ne keep raster show ?thesis
    by (simp only: less_imp_le simp_thms)
qed

theorem discard_guard_and_raster_wrap_witness:
  "0 < scale p0 \<and> 0 < w_proj p0 \<and> 0 < h_proj p0 \<and> (0::nat) < 400 \<and> (0::nat) < 200
   \<and> - radius p0 \<le> 0
   \<and> imgCoord (render_uniforms (\<lambda>_. (1, 0, 0, 1)) p0) (0.5, 0.5) \<noteq> (1.5, 0.5)
   \<and> main_fs (render_uniforms (\<lambda>_. (1, 0, 0, 1)) p0) (0.5, 0.5) \<noteq> Discard
   \<and> (\<exists>a b. getPixOnImg (0, 3, 0) (radius p0) 200 400 = (Some a, Some b)
              \<and> 0 \<le> a \<and> a < int 200 \<and> 0 \<le> b \<and> b < int 400)"
proof -
  have h: "0 < scale p0" "0 < w_proj p0" "0 < h_proj p0" "(0::nat) < 400" "(0::nat) < 200"
    "- radius p0 \<le> 0"
    by (simp_all add: p0_def radius_def)
  from discard_guard_and_raster_wrap
      [OF h, where texture = "\<lambda>_. (1, 0, 0, 1)" and tc = "(0.5, 0.5)" and x = 0 and y = 3] h
  show ?thesis by blast
qed

section \<open>The rotation of the two evaluators\<close>

lemma computeRotationMatrix_columns:
  "computeRotationMatrix (alpha p, beta p, gamma p) =
     (case rot_mat p of (row0, row1, row2) \<Rightarrow> Columns row0 row1 row2)"
  by (simp add: computeRotationMatrix_def rot_mat_def glsl_mat3_def Let_def)

lemma shader_rotation_is_transpose:
  "glsl_mul (computeRotationMatrix (alpha p, beta p, gamma p)) P
     = axisRotate P (mat3_transpose (rot_mat p))"
  by (cases P) (simp add: computeRotationMatrix_columns rot_mat_def axisRotate_def mat3_transpose_def)

text \<open>
  C1. The two evaluators do not apply the same rotation. The shader's
  \<^verbatim>\<open>computeRotationMatrix\<close> passes the nine entries of the worker's \<^verbatim>\<open>rot_mat\<close>, in
  the worker's row order, to the column-major constructor \<^verbatim>\<open>mat3\<close>, so that
  \<^verbatim>\<open>rotMat * spherePoint\<close> multiplies by the transpose. For a quarter turn about the third
  axis the worker sends \<open>(1, 0, 0)\<close> to \<open>(0, 1, 0)\<close> and the shader sends it to \<open>(0, -1, 0)\<close>.
\<close>
theorem rotation_paths_differ:
  "axisRotate (1, 0, 0) (rot_mat quarter_turn) = (0, 1, 0)
   \<and> glsl_mul (computeRotationMatrix (alpha quarter_turn, beta quarter_turn, gamma quarter_turn))
        (1, 0, 0) = (0, - 1, 0)"
  by (simp add: axisRotate_def rot_mat_def computeRotationMatrix_def glsl_mat3_def Let_def
      quarter_turn_def)

end
